theory Spec2Isabelle
  imports Complex_Main
begin

section \<open>AI control service: the anti-spam message trackers\<close>

text \<open>
  The class \<open>AIControlService\<close> keeps a \<open>Map<string, MessageTracker>\<close>. The map is a
  partial function from user ids to trackers; every method that mutates the map (or a
  tracker object held by it) returns the new map. Every call of \<open>Date.now()\<close> is a
  parameter of the method that makes it: times are epoch milliseconds, modelled as
  integers. The optional field \<open>blockedUntil?: number\<close> is an \<open>int option\<close>, where
  \<open>None\<close> is \<open>undefined\<close>.
\<close>

record MessageTracker =
  count :: int
  firstMessageTime :: int
  lastMessageTime :: int
  blockedUntil :: "int option"

type_synonym messageTrackers = "string \<rightharpoonup> MessageTracker"

definition SPAM_THRESHOLD :: int where
  "SPAM_THRESHOLD = 5"

definition SPAM_TIME_WINDOW :: int where
  "SPAM_TIME_WINDOW = 60000"

definition SPAM_BLOCK_DURATION :: int where
  "SPAM_BLOCK_DURATION = 3600000"

definition MESSAGE_COOLDOWN :: int where
  "MESSAGE_COOLDOWN = 3000"

text \<open>
  The source tests the optional number by its truthiness (\<open>!tracker.blockedUntil\<close>,
  \<open>tracker && tracker.blockedUntil\<close>): \<open>undefined\<close> and \<open>0\<close> are both falsy.
\<close>

definition truthy :: "int option \<Rightarrow> bool" where
  "truthy v = (case v of None \<Rightarrow> False | Some n \<Rightarrow> n \<noteq> 0)"

text \<open>
  \<open>isUserBlocked(userId)\<close>: the first argument is the value of \<open>Date.now()\<close> read inside
  the method. An expired block is cleared in place and the counter is set to 0.
\<close>

definition isUserBlocked :: "int \<Rightarrow> string \<Rightarrow> messageTrackers \<Rightarrow> bool \<times> messageTrackers" where
  "isUserBlocked now uid trackers =
     (case trackers uid of
        None \<Rightarrow> (False, trackers)
      | Some tracker \<Rightarrow>
          (case blockedUntil tracker of
             None \<Rightarrow> (False, trackers)
           | Some b \<Rightarrow>
               if b = 0 then (False, trackers)
               else if now < b then (True, trackers)
               else (False, trackers(uid \<mapsto> tracker\<lparr>blockedUntil := None, count := 0\<rparr>))))"

text \<open>
  \<open>Math.ceil(remaining / 60000)\<close> on integers: the ceiling of the exact quotient.
\<close>

definition ceil_div :: "int \<Rightarrow> int \<Rightarrow> int" where
  "ceil_div a b = - ((- a) div b)"

definition getBlockTimeRemaining :: "int \<Rightarrow> string \<Rightarrow> messageTrackers \<Rightarrow> int" where
  "getBlockTimeRemaining now uid trackers =
     (case trackers uid of
        None \<Rightarrow> 0
      | Some tracker \<Rightarrow>
          (case blockedUntil tracker of
             None \<Rightarrow> 0
           | Some b \<Rightarrow> if b = 0 then 0 else ceil_div (b - now) 60000))"

record SpamCheck =
  isSpam :: bool
  shouldWait :: bool
  waitTime :: int

text \<open>
  \<open>checkAndTrackMessage(userId)\<close> reads the clock twice: \<open>now\<close> at its first line and,
  through \<open>isUserBlocked\<close>, a second time (\<open>nowB\<close>). The local variable \<open>tracker\<close> of the
  source is fetched before \<open>isUserBlocked\<close> runs, but it is a reference to the object
  the map holds, so after the call it shows the fields as \<open>isUserBlocked\<close> left them;
  \<open>isUserBlocked\<close> never adds or removes an entry.
\<close>

definition checkAndTrackMessage ::
    "int \<Rightarrow> int \<Rightarrow> string \<Rightarrow> messageTrackers \<Rightarrow> SpamCheck \<times> messageTrackers" where
  "checkAndTrackMessage now nowB uid trackers =
     (let (blocked, trackers1) = isUserBlocked nowB uid trackers in
      if blocked then (\<lparr>isSpam = True, shouldWait = False, waitTime = 0\<rparr>, trackers1)
      else
        (case trackers1 uid of
           None \<Rightarrow>
             (\<lparr>isSpam = False, shouldWait = False, waitTime = 0\<rparr>,
              trackers1(uid \<mapsto> \<lparr>count = 1, firstMessageTime = now, lastMessageTime = now,
                                  blockedUntil = None\<rparr>))
         | Some tracker \<Rightarrow>
             (let timeSinceLastMessage = now - lastMessageTime tracker in
              if timeSinceLastMessage < MESSAGE_COOLDOWN then
                (\<lparr>isSpam = False, shouldWait = True,
                  waitTime = MESSAGE_COOLDOWN - timeSinceLastMessage\<rparr>, trackers1)
              else
                (let timeSinceFirst = now - firstMessageTime tracker in
                 if timeSinceFirst > SPAM_TIME_WINDOW then
                   (\<lparr>isSpam = False, shouldWait = False, waitTime = 0\<rparr>,
                    trackers1(uid \<mapsto> tracker\<lparr>count := 1, firstMessageTime := now,
                                               lastMessageTime := now\<rparr>))
                 else
                   (let counted = tracker\<lparr>count := count tracker + 1, lastMessageTime := now\<rparr> in
                    if count counted > SPAM_THRESHOLD then
                      (\<lparr>isSpam = True, shouldWait = False, waitTime = 0\<rparr>,
                       trackers1(uid \<mapsto> counted\<lparr>blockedUntil := Some (now + SPAM_BLOCK_DURATION)\<rparr>))
                    else
                      (\<lparr>isSpam = False, shouldWait = False, waitTime = 0\<rparr>,
                       trackers1(uid \<mapsto> counted)))))))"

definition unblockUser :: "string \<Rightarrow> messageTrackers \<Rightarrow> bool \<times> messageTrackers" where
  "unblockUser uid trackers =
     (case trackers uid of
        None \<Rightarrow> (False, trackers)
      | Some tracker \<Rightarrow>
          if truthy (blockedUntil tracker)
          then (True, trackers(uid \<mapsto> tracker\<lparr>blockedUntil := None, count := 0\<rparr>))
          else (False, trackers))"

text \<open>
  \<open>cleanup()\<close> collects the ids of the trackers to delete and then deletes them; the
  result is the map without those entries.
\<close>

definition cleanup :: "int \<Rightarrow> messageTrackers \<Rightarrow> messageTrackers" where
  "cleanup now trackers =
     (\<lambda>uid. case trackers uid of
        None \<Rightarrow> None
      | Some tracker \<Rightarrow>
          if now - lastMessageTime tracker > 86400000 \<and>
             (case blockedUntil tracker of None \<Rightarrow> True | Some b \<Rightarrow> b = 0 \<or> now > b)
          then None else Some tracker)"

text \<open>
  A history of the service: the calls that can change the map, each with the clock
  values it reads, applied from the left.
\<close>

datatype call =
    CheckAndTrackMessage int int string
  | IsUserBlocked int string
  | UnblockUser string
  | Cleanup int

fun perform :: "call \<Rightarrow> messageTrackers \<Rightarrow> messageTrackers" where
  "perform (CheckAndTrackMessage now nowB uid) trackers = snd (checkAndTrackMessage now nowB uid trackers)"
| "perform (IsUserBlocked now uid) trackers = snd (isUserBlocked now uid trackers)"
| "perform (UnblockUser uid) trackers = snd (unblockUser uid trackers)"
| "perform (Cleanup now) trackers = cleanup now trackers"

definition perform_all :: "call list \<Rightarrow> messageTrackers \<Rightarrow> messageTrackers" where
  "perform_all calls trackers = fold perform calls trackers"

fun clock_reads :: "call \<Rightarrow> int list" where
  "clock_reads (CheckAndTrackMessage now nowB uid) = [now, nowB]"
| "clock_reads (IsUserBlocked now uid) = [now]"
| "clock_reads (UnblockUser uid) = []"
| "clock_reads (Cleanup now) = [now]"

definition all_clock_reads :: "call list \<Rightarrow> int list" where
  "all_clock_reads calls = concat (map clock_reads calls)"

text \<open>
  A burst of \<open>checkAndTrackMessage\<close> calls of one user, one per pair of clock values,
  with the answers in order.
\<close>

fun send_all :: "(int \<times> int) list \<Rightarrow> string \<Rightarrow> messageTrackers \<Rightarrow> SpamCheck list \<times> messageTrackers" where
  "send_all [] uid trackers = ([], trackers)"
| "send_all ((now, nowB) # rest) uid trackers =
     (let (r, trackers1) = checkAndTrackMessage now nowB uid trackers;
          (rs, trackers2) = send_all rest uid trackers1
      in (r # rs, trackers2))"

section \<open>Conversation history service\<close>

text \<open>
  \<open>ConversationHistoryService\<close> keeps a \<open>Map<string, Conversation>\<close>; \<open>push\<close> appends
  at the end of the array, so the list is in insertion order, oldest first.
\<close>

datatype Role = User | Assistant | System

record Message =
  role :: Role
  content :: string
  timestamp :: int

record Conversation =
  userId :: string
  messages :: "Message list"
  lastUpdated :: int

type_synonym conversations = "string \<rightharpoonup> Conversation"

definition MAX_MESSAGES_PER_USER :: nat where
  "MAX_MESSAGES_PER_USER = 10"

definition CONVERSATION_TIMEOUT :: int where
  "CONVERSATION_TIMEOUT = 1800000"

text \<open>
  \<open>xs.slice(-n)\<close> for \<open>n > 0\<close>: the elements from index \<open>max(length - n, 0)\<close> on
  (the subtraction on \<open>nat\<close> stops at 0).
\<close>

definition slice_last :: "nat \<Rightarrow> 'a list \<Rightarrow> 'a list" where
  "slice_last n xs = drop (length xs - n) xs"

definition addUserMessage :: "int \<Rightarrow> string \<Rightarrow> string \<Rightarrow> conversations \<Rightarrow> conversations" where
  "addUserMessage now uid text convs =
     (let conversation =
            (case convs uid of
               None \<Rightarrow> \<lparr>userId = uid, messages = [], lastUpdated = now\<rparr>
             | Some c \<Rightarrow> c);
          pushed = messages conversation @ [\<lparr>role = User, content = text, timestamp = now\<rparr>];
          limited =
            (if length pushed > MAX_MESSAGES_PER_USER * 2
             then slice_last (MAX_MESSAGES_PER_USER * 2) pushed
             else pushed)
      in convs(uid \<mapsto> conversation\<lparr>messages := limited, lastUpdated := now\<rparr>))"

text \<open>
  \<open>addAssistantMessage\<close> reads the clock twice: \<open>stamp\<close> for the message and \<open>now\<close> for
  \<open>lastUpdated\<close>. Without a conversation it logs an error and returns.
\<close>

definition addAssistantMessage ::
    "int \<Rightarrow> int \<Rightarrow> string \<Rightarrow> string \<Rightarrow> conversations \<Rightarrow> conversations" where
  "addAssistantMessage stamp now uid text convs =
     (case convs uid of
        None \<Rightarrow> convs
      | Some conversation \<Rightarrow>
          convs(uid \<mapsto> conversation
            \<lparr>messages := messages conversation @ [\<lparr>role = Assistant, content = text, timestamp = stamp\<rparr>],
             lastUpdated := now\<rparr>))"

text \<open>
  \<open>getHistory\<close> returns objects \<open>{role, content}\<close>, here pairs; the second component of
  the result is the map as the call leaves it.
\<close>

definition getHistory :: "int \<Rightarrow> string \<Rightarrow> conversations \<Rightarrow> (Role \<times> string) list \<times> conversations" where
  "getHistory now uid convs =
     (case convs uid of
        None \<Rightarrow> ([], convs)
      | Some conversation \<Rightarrow>
          if now - lastUpdated conversation > CONVERSATION_TIMEOUT
          then ([], convs(uid := None))
          else (map (\<lambda>msg. (role msg, content msg)) (messages conversation), convs))"

text \<open>A history of appends to the store, applied from the left.\<close>

datatype append_call =
    AddUserMessage int string string
  | AddAssistantMessage int int string string

fun append_one :: "append_call \<Rightarrow> conversations \<Rightarrow> conversations" where
  "append_one (AddUserMessage now uid text) convs = addUserMessage now uid text convs"
| "append_one (AddAssistantMessage stamp now uid text) convs = addAssistantMessage stamp now uid text convs"

definition append_all :: "append_call list \<Rightarrow> conversations \<Rightarrow> conversations" where
  "append_all calls convs = fold append_one calls convs"

section \<open>Persistent state service\<close>

text \<open>
  The state file holds text. The service only ever passes the text through
  \<open>JSON.parse\<close> and produces it with \<open>JSON.stringify\<close>, both of the platform, so a text
  is kept as what \<open>JSON.parse\<close> makes of it: the value it denotes, or a syntax error.
  Numbers are limited to integers. \<open>JSON.parse(fileContent) as AppState\<close> is an
  unchecked cast, so the state in memory is whatever value the file denotes; an object
  is the list of its properties, and a property whose value is \<open>undefined\<close> is left out
  (as \<open>JSON.stringify\<close> leaves it out, and as reading it gives \<open>undefined\<close>).
\<close>

datatype json =
    JNull
  | JBool bool
  | JNumber int
  | JString string
  | JArray "json list"
  | JObject "(string \<times> json) list"

datatype file_text = JsonText json | Garbage string

definition JSON_stringify :: "json \<Rightarrow> file_text" where
  "JSON_stringify v = JsonText v"

definition JSON_parse :: "file_text \<Rightarrow> json option" where
  "JSON_parse txt = (case txt of JsonText v \<Rightarrow> Some v | Garbage _ \<Rightarrow> None)"

text \<open>
  Reading a property: \<open>None\<close> is \<open>undefined\<close>. (Reading a property of \<open>null\<close> throws;
  \<open>loadState\<close> below has that case.)
\<close>

definition get_prop :: "json \<Rightarrow> string \<Rightarrow> json option" where
  "get_prop v name = (case v of JObject props \<Rightarrow> map_of props name | _ \<Rightarrow> None)"

text \<open>
  The directory \<open>data\<close> and the file \<open>data/app-state.json\<close>: the directory is missing,
  or it exists without the file, or the file exists with some text.
\<close>

datatype disk = NoDataDir | NoStateFile | StateFile file_text

text \<open>
  \<open>mkdirSync\<close>, \<open>readFileSync\<close> and \<open>writeFileSync\<close> can throw; whether they would is
  given by the environment of a call. \<open>existsSync\<close> never throws.
\<close>

record io_faults =
  mkdirFails :: bool
  readFails :: bool
  writeFails :: bool

definition no_faults :: io_faults where
  "no_faults = \<lparr>mkdirFails = False, readFails = False, writeFails = False\<rparr>"

text \<open>
  \<open>DEFAULT_STATE\<close> is a field initialised when the service is constructed, with the
  clock value of that moment.
\<close>

definition DEFAULT_STATE :: "int \<Rightarrow> json" where
  "DEFAULT_STATE t0 = JObject [(''aiEnabled'', JBool True), (''lastUpdated'', JNumber t0)]"

text \<open>\<open>saveState\<close> catches and logs every error.\<close>

definition saveState :: "io_faults \<Rightarrow> json \<Rightarrow> disk \<Rightarrow> disk" where
  "saveState io st d =
     (if d = NoDataDir \<and> mkdirFails io then d
      else
        (let d1 = (if d = NoDataDir then NoStateFile else d) in
         if writeFails io then d1
         else StateFile (JSON_stringify st)))"

text \<open>
  \<open>loadState\<close>: every error inside the \<open>try\<close> block ends in the \<open>catch\<close> branch, which
  returns \<open>DEFAULT_STATE\<close>. The log line after \<open>JSON.parse\<close> reads
  \<open>loadedState.aiEnabled\<close>, which throws a \<open>TypeError\<close> when the file denotes \<open>null\<close>.
  The second argument is the service's \<open>DEFAULT_STATE\<close>.
\<close>

definition loadState :: "io_faults \<Rightarrow> json \<Rightarrow> disk \<Rightarrow> json \<times> disk" where
  "loadState io dflt d =
     (if d = NoDataDir \<and> mkdirFails io then (dflt, d)
      else
        (let d1 = (if d = NoDataDir then NoStateFile else d) in
         case d1 of
           StateFile txt \<Rightarrow>
             if readFails io then (dflt, d1)
             else
               (case JSON_parse txt of
                  None \<Rightarrow> (dflt, d1)
                | Some loadedState \<Rightarrow>
                    if loadedState = JNull then (dflt, d1) else (loadedState, d1))
         | _ \<Rightarrow> (dflt, saveState io dflt d1)))"

record PersistentStateService =
  default_state :: json
  state :: json

text \<open>The constructor: \<open>t0\<close> is the clock value read for \<open>DEFAULT_STATE\<close>.\<close>

definition new_PersistentStateService :: "io_faults \<Rightarrow> int \<Rightarrow> disk \<Rightarrow> PersistentStateService \<times> disk" where
  "new_PersistentStateService io t0 d =
     (let (st, d1) = loadState io (DEFAULT_STATE t0) d
      in (\<lparr>default_state = DEFAULT_STATE t0, state = st\<rparr>, d1))"

definition setAIStatus ::
    "io_faults \<Rightarrow> int \<Rightarrow> bool \<Rightarrow> string option \<Rightarrow> PersistentStateService \<Rightarrow> disk
       \<Rightarrow> PersistentStateService \<times> disk" where
  "setAIStatus io now enabled updatedBy svc d =
     (let st = JObject ([(''aiEnabled'', JBool enabled), (''lastUpdated'', JNumber now)] @
                        (case updatedBy of None \<Rightarrow> [] | Some who \<Rightarrow> [(''updatedBy'', JString who)]))
      in (svc\<lparr>state := st\<rparr>, saveState io st d))"

definition getAIStatus :: "PersistentStateService \<Rightarrow> json option" where
  "getAIStatus svc = get_prop (state svc) ''aiEnabled''"

section \<open>Invariants of the message trackers\<close>

text \<open>
  What every tracker of a reachable map satisfies: the counter is at most the threshold,
  or it is one above it and a block is recorded; a recorded block ends exactly
  \<open>SPAM_BLOCK_DURATION\<close> after the last counted message; and the window does not start
  after the last counted message (a message is counted only when the cooldown since the
  last one has passed, so \<open>lastMessageTime\<close> only grows).
\<close>

definition tracker_ok :: "MessageTracker \<Rightarrow> bool" where
  "tracker_ok t =
     ((count t \<le> SPAM_THRESHOLD \<or> (count t = SPAM_THRESHOLD + 1 \<and> truthy (blockedUntil t))) \<and>
      (case blockedUntil t of None \<Rightarrow> True
       | Some b \<Rightarrow> b \<noteq> 0 \<and> b = lastMessageTime t + SPAM_BLOCK_DURATION) \<and>
      firstMessageTime t \<le> lastMessageTime t)"

definition trackers_ok :: "messageTrackers \<Rightarrow> bool" where
  "trackers_ok m = (\<forall>uid t. m uid = Some t \<longrightarrow> tracker_ok t)"

text \<open>
  A tracker is blocked at a time when \<open>blockedUntil\<close> is set and lies in the future.
\<close>

definition blocked_at :: "int \<Rightarrow> MessageTracker \<Rightarrow> bool" where
  "blocked_at now t = (case blockedUntil t of None \<Rightarrow> False | Some b \<Rightarrow> b \<noteq> 0 \<and> now < b)"

section \<open>Vocabulary for the state file\<close>

fun absent :: "disk \<Rightarrow> bool" where
  "absent NoDataDir = True"
| "absent NoStateFile = True"
| "absent (StateFile txt) = False"

fun malformed :: "disk \<Rightarrow> bool" where
  "malformed (StateFile txt) = (JSON_parse txt = None)"
| "malformed d = False"

section \<open>Preservation of the tracker invariants\<close>

lemmas cfg = SPAM_THRESHOLD_def SPAM_TIME_WINDOW_def SPAM_BLOCK_DURATION_def MESSAGE_COOLDOWN_def

lemma isUserBlocked_ok:
  "trackers_ok m \<Longrightarrow> trackers_ok (snd (isUserBlocked now uid m))"
  by (auto simp: trackers_ok_def isUserBlocked_def tracker_ok_def truthy_def cfg
      split: option.splits if_splits)

lemma isUserBlocked_unblocked:
  assumes "isUserBlocked now uid m = (False, m1)" and "m1 uid = Some t" and "trackers_ok m"
  shows "blockedUntil t = None"
proof -
  obtain t0 where t0: "m uid = Some t0"
    using assms(1,2) by (auto simp: isUserBlocked_def split: option.splits)
  then have "tracker_ok t0" using assms(3) by (simp add: trackers_ok_def)
  then have "blockedUntil t0 \<noteq> Some 0" by (auto simp: tracker_ok_def)
  then show ?thesis using assms(1,2) t0
    by (auto simp: isUserBlocked_def split: option.splits if_splits)
qed

lemma unblockUser_ok:
  "trackers_ok m \<Longrightarrow> trackers_ok (snd (unblockUser uid m))"
  by (auto simp: trackers_ok_def unblockUser_def tracker_ok_def truthy_def cfg
      split: option.splits if_splits)

lemma cleanup_ok:
  "trackers_ok m \<Longrightarrow> trackers_ok (cleanup now m)"
  by (auto simp: trackers_ok_def cleanup_def split: option.splits if_splits)

lemma trackers_ok_upd:
  "trackers_ok m \<Longrightarrow> tracker_ok t \<Longrightarrow> trackers_ok (m(uid \<mapsto> t))"
  by (simp add: trackers_ok_def)

lemma checkAndTrackMessage_ok:
  assumes "trackers_ok m" and "0 \<le> now"
  shows "trackers_ok (snd (checkAndTrackMessage now nowB uid m))"
proof -
  obtain blocked m1 where b: "isUserBlocked nowB uid m = (blocked, m1)"
    by (cases "isUserBlocked nowB uid m") auto
  have ok1: "trackers_ok m1"
    using isUserBlocked_ok [OF assms(1), of nowB uid] b by simp
  show ?thesis
  proof (cases blocked)
    case True
    then show ?thesis using b ok1 by (simp add: checkAndTrackMessage_def)
  next
    case False
    show ?thesis
    proof (cases "m1 uid")
      case None
      have "tracker_ok \<lparr>count = 1, firstMessageTime = now, lastMessageTime = now,
                        blockedUntil = None\<rparr>"
        by (simp add: tracker_ok_def cfg)
      then show ?thesis using b ok1 False None
        by (simp add: checkAndTrackMessage_def trackers_ok_upd)
    next
      case (Some t)
      have nb: "blockedUntil t = None"
        using isUserBlocked_unblocked [of nowB uid m m1 t] Some assms(1) b False by simp
      have tok: "tracker_ok t" using ok1 Some by (simp add: trackers_ok_def)
      then have c: "count t \<le> 5" using nb by (simp add: tracker_ok_def truthy_def cfg)
      have fl: "firstMessageTime t \<le> lastMessageTime t" using tok by (simp add: tracker_ok_def)
      have restart: "tracker_ok (t\<lparr>count := 1, firstMessageTime := now, lastMessageTime := now\<rparr>)"
        using nb by (simp add: tracker_ok_def cfg)
      have counted: "tracker_ok (t\<lparr>count := count t + 1, lastMessageTime := now\<rparr>)"
        if "\<not> now - lastMessageTime t < MESSAGE_COOLDOWN" and "\<not> count t + 1 > SPAM_THRESHOLD"
        using that nb fl by (simp add: tracker_ok_def cfg)
      have blocking: "tracker_ok (t\<lparr>count := count t + 1, lastMessageTime := now,
                                  blockedUntil := Some (now + SPAM_BLOCK_DURATION)\<rparr>)"
        if "\<not> now - lastMessageTime t < MESSAGE_COOLDOWN" and "count t + 1 > SPAM_THRESHOLD"
        using that c fl assms(2) by (simp add: tracker_ok_def truthy_def cfg)
      show ?thesis using b ok1 False Some restart counted blocking
        by (simp add: checkAndTrackMessage_def Let_def trackers_ok_upd)
    qed
  qed
qed

lemma perform_ok:
  "trackers_ok m \<Longrightarrow> \<forall>t \<in> set (clock_reads c). 0 \<le> t \<Longrightarrow> trackers_ok (perform c m)"
  by (cases c) (simp_all add: checkAndTrackMessage_ok isUserBlocked_ok unblockUser_ok cleanup_ok)

lemma perform_all_ok:
  "trackers_ok m \<Longrightarrow> \<forall>t \<in> set (all_clock_reads calls). 0 \<le> t \<Longrightarrow> trackers_ok (perform_all calls m)"
proof (induction calls arbitrary: m)
  case Nil
  then show ?case by (simp add: perform_all_def)
next
  case (Cons c calls)
  have "trackers_ok (perform c m)"
    using Cons.prems by (intro perform_ok) (auto simp: all_clock_reads_def)
  moreover have "\<forall>t \<in> set (all_clock_reads calls). 0 \<le> t"
    using Cons.prems by (auto simp: all_clock_reads_def)
  ultimately have "trackers_ok (perform_all calls (perform c m))"
    by (rule Cons.IH)
  then show ?case by (simp add: perform_all_def)
qed

lemma empty_ok: "trackers_ok Map.empty"
  by (simp add: trackers_ok_def)

section \<open>The rate limiter\<close>

text \<open>
  C2. With threshold 5, window 60000 ms, cooldown 3000 ms and block duration 3600000 ms,
  a user without a tracker who sends six messages four seconds apart, the first at a
  time \<open>t\<close> of the epoch clock, is answered "not spam" five times and "spam" the sixth
  time, which sets \<open>blockedUntil\<close> to the time of the sixth message plus 3600000. A
  seventh call whose block check reads the clock before that time (in particular one
  made at once, inside the cooldown) is answered \<open>{isSpam: true, shouldWait: false,
  waitTime: 0}\<close> and leaves the map as it is: the block check comes before the
  cooldown check. The clock values read by the block checks of the first six calls
  (\<open>b1\<close> to \<open>b6\<close>) do not matter.
\<close>

theorem spam_scenario:
  assumes fresh: "trackers uid = None" and epoch: "0 \<le> t"
    and soon: "nowB7 < t + 20000 + SPAM_BLOCK_DURATION"
  shows "SPAM_THRESHOLD = 5 \<and> SPAM_TIME_WINDOW = 60000 \<and> MESSAGE_COOLDOWN = 3000 \<and>
         SPAM_BLOCK_DURATION = 3600000 \<and>
         (let ok = \<lparr>isSpam = False, shouldWait = False, waitTime = 0\<rparr>;
              spam = \<lparr>isSpam = True, shouldWait = False, waitTime = 0\<rparr>;
              blocked = trackers(uid \<mapsto> \<lparr>count = 6, firstMessageTime = t,
                          lastMessageTime = t + 20000,
                          blockedUntil = Some (t + 20000 + 3600000)\<rparr>)
          in send_all [(t, b1), (t + 4000, b2), (t + 8000, b3), (t + 12000, b4),
                       (t + 16000, b5), (t + 20000, b6)] uid trackers
               = ([ok, ok, ok, ok, ok, spam], blocked) \<and>
             checkAndTrackMessage now7 nowB7 uid blocked = (spam, blocked))"
  using assms
  by (simp add: cfg checkAndTrackMessage_def isUserBlocked_def Let_def)

theorem spam_scenario_witness:
  "(Map.empty :: messageTrackers) ''62811'' = None \<and> (0::int) \<le> 1000 \<and>
   (21003::int) < 1000 + 20000 + SPAM_BLOCK_DURATION \<and>
   map isSpam (fst (send_all [(1000, 1000), (5000, 5000), (9000, 9001), (13000, 13000),
                     (17000, 17000), (21000, 21002)] ''62811'' Map.empty))
     = [False, False, False, False, False, True] \<and>
   map_option blockedUntil
     (snd (send_all [(1000, 1000), (5000, 5000), (9000, 9001), (13000, 13000),
                     (17000, 17000), (21000, 21002)] ''62811'' Map.empty) ''62811'')
     = Some (Some 3621000)"
proof -
  have h1: "(Map.empty :: messageTrackers) ''62811'' = None" by simp
  have h2: "(0::int) \<le> 1000" by simp
  have h3: "(21003::int) < 1000 + 20000 + SPAM_BLOCK_DURATION" by (simp add: cfg)
  show ?thesis
    using h3 spam_scenario [OF h1 h2 h3, where ?b1.0 = 1000 and ?b2.0 = 5000 and ?b3.0 = 9001
        and ?b4.0 = 13000 and ?b5.0 = 17000 and ?b6.0 = 21002 and ?now7.0 = 21003]
    by (simp add: Let_def)
qed

text \<open>
  C3. In a map reached from the empty one by calls whose clock values are not before
  the epoch, take a user with a tracker that is not blocked at the time \<open>now\<close> of a new
  \<open>checkAndTrackMessage\<close> call (whose block check reads the clock no earlier than its
  first line did). If \<open>now - lastMessageTime\<close> is below the cooldown, the call answers \<open>{isSpam: false, shouldWait: true, waitTime: cooldown - gap}\<close> and the
  whole map, so also the tracker's \<open>count\<close>, \<open>firstMessageTime\<close>, \<open>lastMessageTime\<close> and
  \<open>blockedUntil\<close>, is unchanged.
\<close>

theorem cooldown_message_not_counted:
  assumes reads: "\<forall>t \<in> set (all_clock_reads calls). 0 \<le> t"
    and reach: "trackers = perform_all calls Map.empty"
    and existing: "trackers uid = Some tracker"
    and unblocked: "\<not> blocked_at now tracker"
    and clock: "now \<le> nowB"
    and gap: "now - lastMessageTime tracker < MESSAGE_COOLDOWN"
  shows "checkAndTrackMessage now nowB uid trackers =
           (\<lparr>isSpam = False, shouldWait = True,
             waitTime = MESSAGE_COOLDOWN - (now - lastMessageTime tracker)\<rparr>, trackers)"
proof -
  have "trackers_ok trackers"
    unfolding reach using empty_ok reads by (rule perform_all_ok)
  then have ok: "tracker_ok tracker" using existing by (simp add: trackers_ok_def)
  have "blockedUntil tracker = None"
  proof (cases "blockedUntil tracker")
    case None then show ?thesis .
  next
    case (Some b)
    then have "b \<noteq> 0" "b = lastMessageTime tracker + SPAM_BLOCK_DURATION"
      using ok by (simp_all add: tracker_ok_def)
    moreover have "b \<le> now" using unblocked Some \<open>b \<noteq> 0\<close> by (simp add: blocked_at_def)
    ultimately show ?thesis using gap by (simp add: cfg)
  qed
  then show ?thesis using existing gap
    by (simp add: checkAndTrackMessage_def isUserBlocked_def Let_def)
qed

theorem cooldown_message_not_counted_witness:
  "checkAndTrackMessage 2000 2000 ''62811''
      (perform_all [CheckAndTrackMessage 1000 1000 ''62811''] Map.empty)
    = (\<lparr>isSpam = False, shouldWait = True, waitTime = 2000\<rparr>,
       perform_all [CheckAndTrackMessage 1000 1000 ''62811''] Map.empty)"
proof -
  let ?calls = "[CheckAndTrackMessage 1000 1000 ''62811'']"
  let ?t = "\<lparr>count = 1, firstMessageTime = 1000, lastMessageTime = 1000, blockedUntil = None\<rparr>"
  have h1: "\<forall>t \<in> set (all_clock_reads ?calls). 0 \<le> t"
    by (simp add: all_clock_reads_def)
  have h2: "perform_all ?calls Map.empty = perform_all ?calls Map.empty" by simp
  have h3: "perform_all ?calls Map.empty ''62811'' = Some ?t"
    by (simp add: perform_all_def checkAndTrackMessage_def isUserBlocked_def)
  have h4: "\<not> blocked_at 2000 ?t" by (simp add: blocked_at_def)
  have h5: "(2000::int) \<le> 2000" by simp
  have h6: "2000 - lastMessageTime ?t < MESSAGE_COOLDOWN" by (simp add: cfg)
  show ?thesis
    using cooldown_message_not_counted [OF h1 h2 h3 h4 h5 h6] by (simp add: cfg)
qed

text \<open>
  C4. In a map reached from the empty one by calls whose clock values are not before
  the epoch, take a user whose tracker has \<open>blockedUntil\<close> set to a time that has
  passed (\<open>b \<le> now\<close>). The next \<open>checkAndTrackMessage\<close> call, whose block check reads the
  clock no earlier than its first line did, answers "not spam" and leaves the tracker
  with no block, \<open>count = 1\<close> and a window that starts at \<open>now\<close>.
\<close>

theorem expired_block_restarts_window:
  assumes reads: "\<forall>t \<in> set (all_clock_reads calls). 0 \<le> t"
    and reach: "trackers = perform_all calls Map.empty"
    and existing: "trackers uid = Some tracker"
    and block: "blockedUntil tracker = Some b"
    and elapsed: "b \<le> now"
    and clock: "now \<le> nowB"
  shows "checkAndTrackMessage now nowB uid trackers =
           (\<lparr>isSpam = False, shouldWait = False, waitTime = 0\<rparr>,
            trackers(uid \<mapsto> \<lparr>count = 1, firstMessageTime = now, lastMessageTime = now,
                               blockedUntil = None\<rparr>))"
proof -
  have "trackers_ok trackers"
    unfolding reach using empty_ok reads by (rule perform_all_ok)
  then have ok: "tracker_ok tracker" using existing by (simp add: trackers_ok_def)
  then have b: "b \<noteq> 0" "b = lastMessageTime tracker + SPAM_BLOCK_DURATION"
    using block by (simp_all add: tracker_ok_def)
  have fl: "firstMessageTime tracker \<le> lastMessageTime tracker"
    using ok by (simp add: tracker_ok_def)
  have blk: "isUserBlocked nowB uid trackers =
      (False, trackers(uid \<mapsto> tracker\<lparr>blockedUntil := None, count := 0\<rparr>))"
    using existing block b elapsed clock by (simp add: isUserBlocked_def)
  show ?thesis using b fl elapsed
    by (cases tracker) (simp add: checkAndTrackMessage_def blk Let_def cfg)
qed

theorem expired_block_restarts_window_witness:
  "checkAndTrackMessage 3621000 3621000 ''62811''
      (perform_all
       [CheckAndTrackMessage 1000 1000 ''62811'', CheckAndTrackMessage 5000 5000 ''62811'',
        CheckAndTrackMessage 9000 9000 ''62811'', CheckAndTrackMessage 13000 13000 ''62811'',
        CheckAndTrackMessage 17000 17000 ''62811'', CheckAndTrackMessage 21000 21000 ''62811'']
       Map.empty)
    = (\<lparr>isSpam = False, shouldWait = False, waitTime = 0\<rparr>,
       (perform_all
       [CheckAndTrackMessage 1000 1000 ''62811'', CheckAndTrackMessage 5000 5000 ''62811'',
        CheckAndTrackMessage 9000 9000 ''62811'', CheckAndTrackMessage 13000 13000 ''62811'',
        CheckAndTrackMessage 17000 17000 ''62811'', CheckAndTrackMessage 21000 21000 ''62811'']
       Map.empty)(''62811'' \<mapsto> \<lparr>count = 1, firstMessageTime = 3621000,
           lastMessageTime = 3621000, blockedUntil = None\<rparr>))"
proof -
  let ?calls = "[CheckAndTrackMessage 1000 1000 ''62811'', CheckAndTrackMessage 5000 5000 ''62811'',
        CheckAndTrackMessage 9000 9000 ''62811'', CheckAndTrackMessage 13000 13000 ''62811'',
        CheckAndTrackMessage 17000 17000 ''62811'', CheckAndTrackMessage 21000 21000 ''62811'']"
  let ?t = "\<lparr>count = 6, firstMessageTime = 1000, lastMessageTime = 21000,
              blockedUntil = Some 3621000\<rparr>"
  have h1: "\<forall>t \<in> set (all_clock_reads ?calls). 0 \<le> t"
    by (simp add: all_clock_reads_def)
  have h3: "perform_all ?calls Map.empty = perform_all ?calls Map.empty" by simp
  have h4: "perform_all ?calls Map.empty ''62811'' = Some ?t"
    by (simp add: perform_all_def checkAndTrackMessage_def isUserBlocked_def cfg Let_def)
  have h5: "blockedUntil ?t = Some 3621000" by simp
  have h6: "(3621000::int) \<le> 3621000" by simp
  show ?thesis
    using expired_block_restarts_window [OF h1 h3 h4 h5 h6 h6] by simp
qed

text \<open>
  What \<open>getBlockTimeRemaining\<close> returns in the cases the source tests for: 0 without a
  tracker and without a block, and the ceiling of the remaining minutes while the user
  is blocked.
\<close>

lemma ceil_div_ceiling: "ceil_div a b = \<lceil>real_of_int a / real_of_int b\<rceil>"
  by (simp add: ceil_div_def ceiling_divide_eq_div)

lemma getBlockTimeRemaining_untracked:
  "trackers uid = None \<Longrightarrow> getBlockTimeRemaining now uid trackers = 0"
  by (simp add: getBlockTimeRemaining_def)

lemma getBlockTimeRemaining_no_block:
  "trackers uid = Some t \<Longrightarrow> blockedUntil t = None \<Longrightarrow> getBlockTimeRemaining now uid trackers = 0"
  by (simp add: getBlockTimeRemaining_def)

lemma getBlockTimeRemaining_blocked:
  "trackers uid = Some t \<Longrightarrow> blocked_at now t \<Longrightarrow>
     getBlockTimeRemaining now uid trackers
       = \<lceil>real_of_int (the (blockedUntil t) - now) / 60000\<rceil>"
  by (auto simp: getBlockTimeRemaining_def blocked_at_def ceil_div_ceiling split: option.splits)

text \<open>
  C8. \<open>getBlockTimeRemaining\<close> is to return 0 whenever the user is not blocked, also
  when \<open>blockedUntil\<close> has passed. It has no test for that case: a user blocked by six
  messages until 3621000 and asked about two minutes later, at 3741000, is not blocked
  any more, and the method returns \<open>-2\<close>.
\<close>

theorem remaining_negative_after_expiry:
  "getBlockTimeRemaining 3741000 ''62811''
     (perform_all
       [CheckAndTrackMessage 1000 1000 ''62811'', CheckAndTrackMessage 5000 5000 ''62811'',
        CheckAndTrackMessage 9000 9000 ''62811'', CheckAndTrackMessage 13000 13000 ''62811'',
        CheckAndTrackMessage 17000 17000 ''62811'', CheckAndTrackMessage 21000 21000 ''62811'']
       Map.empty) = - 2 \<and>
   fst (isUserBlocked 3741000 ''62811''
     (perform_all
       [CheckAndTrackMessage 1000 1000 ''62811'', CheckAndTrackMessage 5000 5000 ''62811'',
        CheckAndTrackMessage 9000 9000 ''62811'', CheckAndTrackMessage 13000 13000 ''62811'',
        CheckAndTrackMessage 17000 17000 ''62811'', CheckAndTrackMessage 21000 21000 ''62811'']
       Map.empty)) = False"
  by (simp add: perform_all_def checkAndTrackMessage_def isUserBlocked_def
      getBlockTimeRemaining_def ceil_div_def cfg Let_def)

text \<open>
  C10. In every map reached from the empty one by \<open>checkAndTrackMessage\<close>,
  \<open>isUserBlocked\<close>, \<open>unblockUser\<close> and \<open>cleanup\<close> calls whose clock values are not before
  the epoch, the counter of every tracker is at most \<open>SPAM_THRESHOLD + 1 = 6\<close>.
\<close>

theorem count_never_exceeds_threshold_plus_one:
  assumes "\<forall>t \<in> set (all_clock_reads calls). 0 \<le> t"
    and "perform_all calls Map.empty uid = Some tracker"
  shows "count tracker \<le> SPAM_THRESHOLD + 1 \<and> SPAM_THRESHOLD + 1 = 6"
proof -
  have "trackers_ok (perform_all calls Map.empty)"
    using empty_ok assms(1) by (rule perform_all_ok)
  then have "tracker_ok tracker" using assms(2) by (simp add: trackers_ok_def)
  then show ?thesis by (auto simp: tracker_ok_def cfg)
qed

theorem count_never_exceeds_threshold_plus_one_witness:
  "all_clock_reads
       [CheckAndTrackMessage 1000 1000 ''62811'', CheckAndTrackMessage 5000 5000 ''62811'',
        CheckAndTrackMessage 9000 9000 ''62811'', CheckAndTrackMessage 13000 13000 ''62811'',
        CheckAndTrackMessage 17000 17000 ''62811'', CheckAndTrackMessage 21000 21000 ''62811'']
     = [1000, 1000, 5000, 5000, 9000, 9000, 13000, 13000, 17000, 17000, 21000, 21000] \<and>
   perform_all
       [CheckAndTrackMessage 1000 1000 ''62811'', CheckAndTrackMessage 5000 5000 ''62811'',
        CheckAndTrackMessage 9000 9000 ''62811'', CheckAndTrackMessage 13000 13000 ''62811'',
        CheckAndTrackMessage 17000 17000 ''62811'', CheckAndTrackMessage 21000 21000 ''62811'']
       Map.empty ''62811''
     = Some \<lparr>count = 6, firstMessageTime = 1000, lastMessageTime = 21000,
              blockedUntil = Some 3621000\<rparr> \<and>
   count \<lparr>count = 6, firstMessageTime = 1000, lastMessageTime = 21000,
          blockedUntil = Some 3621000\<rparr> \<le> SPAM_THRESHOLD + 1"
proof -
  let ?calls = "[CheckAndTrackMessage 1000 1000 ''62811'', CheckAndTrackMessage 5000 5000 ''62811'',
        CheckAndTrackMessage 9000 9000 ''62811'', CheckAndTrackMessage 13000 13000 ''62811'',
        CheckAndTrackMessage 17000 17000 ''62811'', CheckAndTrackMessage 21000 21000 ''62811'']"
  have h1: "\<forall>t \<in> set (all_clock_reads ?calls). 0 \<le> t"
    by (simp add: all_clock_reads_def)
  have h2: "perform_all ?calls Map.empty ''62811''
     = Some \<lparr>count = 6, firstMessageTime = 1000, lastMessageTime = 21000,
              blockedUntil = Some 3621000\<rparr>"
    by (simp add: perform_all_def checkAndTrackMessage_def isUserBlocked_def cfg Let_def)
  have h0: "all_clock_reads ?calls
     = [1000, 1000, 5000, 5000, 9000, 9000, 13000, 13000, 17000, 17000, 21000, 21000]"
    by (simp add: all_clock_reads_def)
  show ?thesis
    using h0 h2 count_never_exceeds_threshold_plus_one [OF h1 h2] by simp
qed

section \<open>The conversation store\<close>

text \<open>
  \<open>addUserMessage\<close> alone keeps the bound, and what it keeps is the newest end of the
  list.
\<close>

lemma addUserMessage_bounded:
  "\<exists>c. addUserMessage now uid text convs uid = Some c \<and>
        length (messages c) \<le> MAX_MESSAGES_PER_USER * 2"
  by (auto simp: addUserMessage_def slice_last_def Let_def MAX_MESSAGES_PER_USER_def)

lemma addUserMessage_keeps_newest:
  assumes "convs uid = Some c0"
  shows "\<exists>c. addUserMessage now uid text convs uid = Some c \<and>
          messages c = slice_last (MAX_MESSAGES_PER_USER * 2)
             (messages c0 @ [\<lparr>role = User, content = text, timestamp = now\<rparr>])"
  using assms by (simp add: addUserMessage_def slice_last_def Let_def)

lemma addAssistantMessage_appends:
  assumes "convs uid = Some c"
  shows "\<exists>c'. addAssistantMessage stamp now uid text convs uid = Some c' \<and>
          messages c' = messages c @ [\<lparr>role = Assistant, content = text, timestamp = stamp\<rparr>]"
  using assms by (simp add: addAssistantMessage_def)

text \<open>
  C1. The stored list is never to exceed \<open>2 * MAX_MESSAGES_PER_USER = 20\<close> entries.
  Only \<open>addUserMessage\<close> trims; \<open>addAssistantMessage\<close> appends without a limit. After
  eleven exchanges of a user message and an assistant message the record holds 21
  messages.
\<close>

theorem assistant_append_exceeds_bound:
  "map_option (\<lambda>c. length (messages c))
     (append_all (concat (replicate 11
        [AddUserMessage 1000 ''62811'' ''question'',
         AddAssistantMessage 2000 2000 ''62811'' ''answer'']))
        Map.empty ''62811'') = Some 21 \<and>
   MAX_MESSAGES_PER_USER * 2 = 20"
  by (simp add: append_all_def addUserMessage_def addAssistantMessage_def
      MAX_MESSAGES_PER_USER_def slice_last_def Let_def eval_nat_numeral)

text \<open>
  C5. \<open>getHistory\<close> returns the empty list and deletes the user's record when
  \<open>now - lastUpdated\<close> exceeds the timeout of 1800000 ms; otherwise it returns the stored
  messages in their order, each reduced to role and content, and leaves the store as it
  is (for a user without a record: the empty list).
\<close>

theorem getHistory_expiry:
  "CONVERSATION_TIMEOUT = 1800000 \<and>
   (convs uid = None \<longrightarrow> getHistory now uid convs = ([], convs)) \<and>
   (\<forall>c. convs uid = Some c \<longrightarrow>
      (now - lastUpdated c > CONVERSATION_TIMEOUT \<longrightarrow>
         fst (getHistory now uid convs) = [] \<and>
         snd (getHistory now uid convs) = convs(uid := None)) \<and>
      (\<not> now - lastUpdated c > CONVERSATION_TIMEOUT \<longrightarrow>
         fst (getHistory now uid convs) = map (\<lambda>msg. (role msg, content msg)) (messages c) \<and>
         snd (getHistory now uid convs) = convs))"
  by (simp add: getHistory_def CONVERSATION_TIMEOUT_def)

theorem getHistory_expiry_witness:
  "getHistory 1801000 ''62811''
      (addAssistantMessage 1000 1000 ''62811'' ''answer''
        (addUserMessage 500 ''62811'' ''question'' Map.empty))
     = ([(User, ''question''), (Assistant, ''answer'')],
        addAssistantMessage 1000 1000 ''62811'' ''answer''
        (addUserMessage 500 ''62811'' ''question'' Map.empty)) \<and>
   fst (getHistory 1801001 ''62811''
      (addAssistantMessage 1000 1000 ''62811'' ''answer''
        (addUserMessage 500 ''62811'' ''question'' Map.empty))) = [] \<and>
   snd (getHistory 1801001 ''62811''
      (addAssistantMessage 1000 1000 ''62811'' ''answer''
        (addUserMessage 500 ''62811'' ''question'' Map.empty))) ''62811'' = None"
proof -
  let ?convs = "addAssistantMessage 1000 1000 ''62811'' ''answer''
        (addUserMessage 500 ''62811'' ''question'' Map.empty)"
  let ?c = "\<lparr>userId = ''62811'',
             messages = [\<lparr>role = User, content = ''question'', timestamp = 500\<rparr>,
                         \<lparr>role = Assistant, content = ''answer'', timestamp = 1000\<rparr>],
             lastUpdated = 1000\<rparr>"
  have h: "?convs ''62811'' = Some ?c"
    by (simp add: addAssistantMessage_def addUserMessage_def Let_def MAX_MESSAGES_PER_USER_def)
  show ?thesis
    using h getHistory_expiry [where convs = "?convs" and uid = "''62811''" and now = 1801000]
          getHistory_expiry [where convs = "?convs" and uid = "''62811''" and now = 1801001]
    by (simp add: prod_eq_iff)
qed

text \<open>
  Insertion order, seen through \<open>getHistory\<close>: an append shows up as the last entry of
  the history read before the timeout, after the entries that were there.
\<close>

lemma getHistory_after_addUserMessage:
  assumes "convs uid = Some c" and "\<not> now' - now > CONVERSATION_TIMEOUT"
  shows "fst (getHistory now' uid (addUserMessage now uid text convs))
           = slice_last (MAX_MESSAGES_PER_USER * 2)
               (map (\<lambda>msg. (role msg, content msg)) (messages c) @ [(User, text)])"
  using assms
  by (simp add: getHistory_def addUserMessage_def slice_last_def Let_def drop_map
      MAX_MESSAGES_PER_USER_def)

lemma getHistory_after_addAssistantMessage:
  assumes "convs uid = Some c" and "\<not> now' - now > CONVERSATION_TIMEOUT"
  shows "fst (getHistory now' uid (addAssistantMessage stamp now uid text convs))
           = map (\<lambda>msg. (role msg, content msg)) (messages c) @ [(Assistant, text)]"
  using assms by (simp add: getHistory_def addAssistantMessage_def)

text \<open>
  C9. For a user without a record, \<open>addAssistantMessage\<close> leaves the store as it is;
  the model has no error result because the source has no statement that throws.
\<close>

theorem assistant_without_record_is_noop:
  "convs uid = None \<Longrightarrow> addAssistantMessage stamp now uid text convs = convs"
  by (simp add: addAssistantMessage_def)

theorem assistant_without_record_is_noop_witness:
  "(Map.empty :: conversations) ''62811'' = None \<and>
   addAssistantMessage 1000 1000 ''62811'' ''answer'' Map.empty = Map.empty"
proof -
  have h: "(Map.empty :: conversations) ''62811'' = None" by simp
  show ?thesis
    using h assistant_without_record_is_noop [of Map.empty "''62811''" 1000 1000 "''answer''"]
    by simp
qed

section \<open>The persistent flag\<close>

text \<open>
  C6. \<open>setAIStatus(false, "admin1")\<close> whose write reaches the disk, followed by a
  \<open>loadState\<close> that can read the file, loads a state with \<open>aiEnabled = false\<close> and
  \<open>updatedBy = "admin1"\<close>, whatever was on the disk before; a service constructed on
  that disk (a restart) reports \<open>getAIStatus() = false\<close>.
\<close>

theorem flag_round_trip:
  assumes "\<not> writeFails io" and "d = NoDataDir \<longrightarrow> \<not> mkdirFails io" and "\<not> readFails io'"
  shows "let (svc1, d1) = setAIStatus io now False (Some ''admin1'') svc d;
             (loaded, d2) = loadState io' dflt d1;
             (restarted, d3) = new_PersistentStateService io' t1 d1
         in get_prop loaded ''aiEnabled'' = Some (JBool False) \<and>
            get_prop loaded ''updatedBy'' = Some (JString ''admin1'') \<and>
            get_prop loaded ''lastUpdated'' = Some (JNumber now) \<and>
            loaded = state svc1 \<and> d2 = d1 \<and>
            state restarted = loaded \<and> getAIStatus restarted = Some (JBool False)"
  using assms
  by (cases d)
     (simp_all add: setAIStatus_def saveState_def loadState_def JSON_parse_def JSON_stringify_def
      get_prop_def Let_def new_PersistentStateService_def getAIStatus_def)

theorem flag_round_trip_witness:
  "\<not> writeFails no_faults \<and> \<not> mkdirFails no_faults \<and> \<not> readFails no_faults \<and>
   (let (svc1, d1) = setAIStatus no_faults 5000 False (Some ''admin1'')
                       \<lparr>default_state = DEFAULT_STATE 1000, state = DEFAULT_STATE 1000\<rparr> NoDataDir;
        (loaded, d2) = loadState no_faults (DEFAULT_STATE 9000) d1;
        (restarted, d3) = new_PersistentStateService no_faults 9000 d1
    in get_prop loaded ''aiEnabled'' = Some (JBool False) \<and>
       get_prop loaded ''updatedBy'' = Some (JString ''admin1'') \<and>
       get_prop loaded ''lastUpdated'' = Some (JNumber 5000) \<and>
       loaded = state svc1 \<and> d2 = d1 \<and>
       state restarted = loaded \<and> getAIStatus restarted = Some (JBool False))"
proof -
  have h1: "\<not> writeFails no_faults" by (simp add: no_faults_def)
  have h2: "NoDataDir = NoDataDir \<longrightarrow> \<not> mkdirFails no_faults" by (simp add: no_faults_def)
  have h3: "\<not> readFails no_faults" by (simp add: no_faults_def)
  from h2 have h2': "\<not> mkdirFails no_faults" by simp
  show ?thesis
    by (intro conjI h1 h2' h3 flag_round_trip [OF h1 h2 h3])
qed

text \<open>
  C7, as stated, fails on a malformed file: \<open>loadState\<close> returns the default from its
  \<open>catch\<close> branch, which does not call \<open>saveState\<close>, so the file keeps its text.
\<close>

theorem malformed_file_not_rewritten:
  "malformed (StateFile (Garbage ''{aiEnabled'')) \<and>
   snd (loadState no_faults (DEFAULT_STATE 1000) (StateFile (Garbage ''{aiEnabled'')))
     \<noteq> StateFile (JSON_stringify (DEFAULT_STATE 1000))"
  by (simp add: loadState_def JSON_parse_def JSON_stringify_def no_faults_def)

text \<open>
  C7, amended. If the state file is absent or malformed, \<open>loadState\<close> returns the
  built-in default, whose \<open>aiEnabled\<close> is true, whatever the disk does. If the file is
  absent and the directory and the file can be written, the default is written to the
  file; if the file is malformed, it is left as it is.
\<close>

theorem loadState_fails_open:
  assumes "absent d \<or> malformed d"
  shows "fst (loadState io (DEFAULT_STATE t0) d) = DEFAULT_STATE t0 \<and>
         get_prop (DEFAULT_STATE t0) ''aiEnabled'' = Some (JBool True) \<and>
         (absent d \<and> \<not> mkdirFails io \<and> \<not> writeFails io \<longrightarrow>
            snd (loadState io (DEFAULT_STATE t0) d) = StateFile (JSON_stringify (DEFAULT_STATE t0))) \<and>
         (malformed d \<longrightarrow> snd (loadState io (DEFAULT_STATE t0) d) = d)"
  using assms
  by (cases d)
     (auto simp: loadState_def saveState_def DEFAULT_STATE_def get_prop_def Let_def
        split: option.splits)

theorem loadState_fails_open_witness:
  "(absent NoStateFile \<or> malformed NoStateFile) \<and>
   (absent (StateFile (Garbage ''{aiEnabled'')) \<or> malformed (StateFile (Garbage ''{aiEnabled''))) \<and>
   loadState no_faults (DEFAULT_STATE 1000) NoStateFile
     = (DEFAULT_STATE 1000, StateFile (JSON_stringify (DEFAULT_STATE 1000))) \<and>
   loadState no_faults (DEFAULT_STATE 1000) (StateFile (Garbage ''{aiEnabled''))
     = (DEFAULT_STATE 1000, StateFile (Garbage ''{aiEnabled''))"
proof -
  have h1: "absent NoStateFile \<or> malformed NoStateFile" by simp
  have h2: "absent (StateFile (Garbage ''{aiEnabled'')) \<or> malformed (StateFile (Garbage ''{aiEnabled''))"
    by (simp add: JSON_parse_def)
  have a: "absent NoStateFile \<and> \<not> mkdirFails no_faults \<and> \<not> writeFails no_faults"
    by (simp add: no_faults_def)
  have m: "malformed (StateFile (Garbage ''{aiEnabled''))" by (simp add: JSON_parse_def)
  show ?thesis
    using h1 h2 a m loadState_fails_open [OF h1, of no_faults 1000]
      loadState_fails_open [OF h2, of no_faults 1000]
    by (simp add: prod_eq_iff)
qed

end
